theory Spec2Isabelle
  imports Complex_Main "HOL-Library.Word"
begin

section \<open>Numbers\<close>

text \<open>
  The analyser computes in Go's \<^verbatim>\<open>float64\<close>. A value of that type is modelled as an
  exact real, or one of the three special values that a division by zero produces and
  that every later operation propagates. Rounding, overflow to infinity and the sign of
  zero are left out: finite arithmetic is exact.  Comparisons with \<open>NaN\<close> are false,
  as in Go.
\<close>

datatype f64 = Fin real | PInf | NInf | NaN

fun fadd :: "f64 \<Rightarrow> f64 \<Rightarrow> f64" where
  "fadd (Fin a) (Fin b) = Fin (a + b)"
| "fadd NaN _ = NaN"
| "fadd _ NaN = NaN"
| "fadd PInf NInf = NaN"
| "fadd NInf PInf = NaN"
| "fadd PInf _ = PInf"
| "fadd _ PInf = PInf"
| "fadd NInf _ = NInf"
| "fadd _ NInf = NInf"

fun fneg :: "f64 \<Rightarrow> f64" where
  "fneg (Fin a) = Fin (- a)"
| "fneg PInf = NInf"
| "fneg NInf = PInf"
| "fneg NaN = NaN"

definition fsub :: "f64 \<Rightarrow> f64 \<Rightarrow> f64" where
  "fsub a b = fadd a (fneg b)"

text \<open>The sign of a value: \<open>1\<close>, \<open>0\<close> or \<open>-1\<close>; \<open>NaN\<close> has none.\<close>

fun fsign :: "f64 \<Rightarrow> int option" where
  "fsign (Fin a) = Some (if 0 < a then 1 else if a < 0 then -1 else 0)"
| "fsign PInf = Some 1"
| "fsign NInf = Some (-1)"
| "fsign NaN = None"

definition inf_of_sign :: "int \<Rightarrow> f64" where
  "inf_of_sign s = (if 0 < s then PInf else if s < 0 then NInf else NaN)"

fun fmul :: "f64 \<Rightarrow> f64 \<Rightarrow> f64" where
  "fmul (Fin a) (Fin b) = Fin (a * b)"
| "fmul a b = (case (fsign a, fsign b) of
                 (Some s, Some t) \<Rightarrow> inf_of_sign (s * t)
               | _ \<Rightarrow> NaN)"

fun fdiv :: "f64 \<Rightarrow> f64 \<Rightarrow> f64" where
  "fdiv (Fin a) (Fin b) =
     (if b \<noteq> 0 then Fin (a / b)
      else if 0 < a then PInf else if a < 0 then NInf else NaN)"
| "fdiv (Fin a) PInf = Fin 0"
| "fdiv (Fin a) NInf = Fin 0"
| "fdiv PInf (Fin b) = (if 0 \<le> b then PInf else NInf)"
| "fdiv NInf (Fin b) = (if 0 \<le> b then NInf else PInf)"
| "fdiv _ _ = NaN"

fun flt :: "f64 \<Rightarrow> f64 \<Rightarrow> bool" where
  "flt (Fin a) (Fin b) = (a < b)"
| "flt NaN _ = False"
| "flt _ NaN = False"
| "flt _ NInf = False"
| "flt PInf _ = False"
| "flt NInf _ = True"
| "flt _ PInf = True"

fun fle :: "f64 \<Rightarrow> f64 \<Rightarrow> bool" where
  "fle (Fin a) (Fin b) = (a \<le> b)"
| "fle NaN _ = False"
| "fle _ NaN = False"
| "fle NInf _ = True"
| "fle _ PInf = True"
| "fle PInf _ = False"
| "fle _ NInf = False"

definition fgt :: "f64 \<Rightarrow> f64 \<Rightarrow> bool" where
  "fgt a b = flt b a"

definition fge :: "f64 \<Rightarrow> f64 \<Rightarrow> bool" where
  "fge a b = fle b a"

text \<open>Go's \<^verbatim>\<open>a != b\<close> on floats: true whenever an operand is \<open>NaN\<close>.\<close>

fun feq :: "f64 \<Rightarrow> f64 \<Rightarrow> bool" where
  "feq (Fin a) (Fin b) = (a = b)"
| "feq PInf PInf = True"
| "feq NInf NInf = True"
| "feq _ _ = False"

definition fne :: "f64 \<Rightarrow> f64 \<Rightarrow> bool" where
  "fne a b = (\<not> feq a b)"

text \<open>\<^verbatim>\<open>math.Min\<close> and \<^verbatim>\<open>math.Max\<close>: \<open>NaN\<close> if an operand is.\<close>

definition fmin :: "f64 \<Rightarrow> f64 \<Rightarrow> f64" where
  "fmin a b = (if a = NaN \<or> b = NaN then NaN else if fle a b then a else b)"

definition fmax :: "f64 \<Rightarrow> f64 \<Rightarrow> f64" where
  "fmax a b = (if a = NaN \<or> b = NaN then NaN else if fle a b then b else a)"

fun fsqrt :: "f64 \<Rightarrow> f64" where
  "fsqrt (Fin a) = (if a < 0 then NaN else Fin (sqrt a))"
| "fsqrt PInf = PInf"
| "fsqrt NInf = NaN"
| "fsqrt NaN = NaN"

text \<open>
  Conversion of a float to \<^verbatim>\<open>int\<close> truncates towards zero. Go leaves the result
  for a value that is not finite to the implementation; the model takes what amd64
  yields, the least 64-bit integer. Integers themselves are unbounded in the model.
\<close>

definition trunc :: "real \<Rightarrow> int" where
  "trunc r = (if r < 0 then \<lceil>r\<rceil> else \<lfloor>r\<rfloor>)"

fun f64_to_int :: "f64 \<Rightarrow> int" where
  "f64_to_int (Fin a) = trunc a"
| "f64_to_int _ = - (2 ^ 63)"

definition of_int64 :: "int \<Rightarrow> f64" where
  "of_int64 i = Fin (real_of_int i)"

text \<open>\<^verbatim>\<open>func chop(x float64) float64\<close>\<close>

fun chop :: "f64 \<Rightarrow> f64" where
  "chop (Fin a) = Fin (real_of_int (trunc a))"
| "chop x = x"

text \<open>\<^verbatim>\<open>func bounds(l float64) float64\<close>\<close>

definition bounds :: "f64 \<Rightarrow> f64" where
  "bounds l = fmin (fmax l (Fin 0)) (Fin 255)"

text \<open>Conversion to \<^verbatim>\<open>uint8\<close>, applied in the source to results of \<open>bounds\<close> only.\<close>

definition f64_to_uint8 :: "f64 \<Rightarrow> 8 word" where
  "f64_to_uint8 x = word_of_int (f64_to_int x)"

section \<open>Geometry: Go's \<^verbatim>\<open>image.Rectangle\<close>\<close>

text \<open>
  A rectangle holds \<^verbatim>\<open>Min.X, Min.Y, Max.X, Max.Y\<close>, written \<open>MinX\<close> \<open>\<dots>\<close> \<open>MaxY\<close>
  here. The functions below are those of Go's standard \<^verbatim>\<open>image\<close> package that the
  analyser calls.
\<close>

record rectangle =
  MinX :: int
  MinY :: int
  MaxX :: int
  MaxY :: int

definition ZR :: rectangle where
  "ZR = \<lparr>MinX = 0, MinY = 0, MaxX = 0, MaxY = 0\<rparr>"

definition Rect :: "int \<Rightarrow> int \<Rightarrow> int \<Rightarrow> int \<Rightarrow> rectangle" where
  "Rect x0 y0 x1 y1 =
     \<lparr>MinX = (if x0 > x1 then x1 else x0), MinY = (if y0 > y1 then y1 else y0),
      MaxX = (if x0 > x1 then x0 else x1), MaxY = (if y0 > y1 then y0 else y1)\<rparr>"

definition Dx :: "rectangle \<Rightarrow> int" where
  "Dx r = MaxX r - MinX r"

definition Dy :: "rectangle \<Rightarrow> int" where
  "Dy r = MaxY r - MinY r"

definition Empty :: "rectangle \<Rightarrow> bool" where
  "Empty r = (MinX r \<ge> MaxX r \<or> MinY r \<ge> MaxY r)"

definition In :: "rectangle \<Rightarrow> rectangle \<Rightarrow> bool" where
  "In r s = (if Empty r then True
             else MinX s \<le> MinX r \<and> MaxX r \<le> MaxX s \<and> MinY s \<le> MinY r \<and> MaxY r \<le> MaxY s)"

definition Canon :: "rectangle \<Rightarrow> rectangle" where
  "Canon r =
     (let r1 = (if MaxX r < MinX r then r\<lparr>MinX := MaxX r, MaxX := MinX r\<rparr> else r)
      in if MaxY r1 < MinY r1 then r1\<lparr>MinY := MaxY r1, MaxY := MinY r1\<rparr> else r1)"

text \<open>\<^verbatim>\<open>Point{x, y}.In(r)\<close>\<close>

definition PtIn :: "int \<Rightarrow> int \<Rightarrow> rectangle \<Rightarrow> bool" where
  "PtIn x y r = (MinX r \<le> x \<and> x < MaxX r \<and> MinY r \<le> y \<and> y < MaxY r)"

section \<open>Scores, crops and the configuration\<close>

record Score =
  Detail :: f64
  Saturation :: f64
  Skin :: f64
  Face :: f64
  Total :: f64

definition Score0 :: Score where
  "Score0 = \<lparr>Detail = Fin 0, Saturation = Fin 0, Skin = Fin 0, Face = Fin 0, Total = Fin 0\<rparr>"

text \<open>\<^verbatim>\<open>type Crop struct { image.Rectangle; Score Score }\<close>\<close>

record Crop =
  Rectangle :: rectangle
  Score :: Score

definition Crop0 :: Crop where
  "Crop0 = \<lparr>Rectangle = ZR, Score = Score0\<rparr>"

text \<open>
  The configuration. Its float fields are taken to be finite, so they are reals.
\<close>

record Config =
  DetailWeight :: real
  SkinBias :: real
  SkinBrightnessMin :: real
  SkinBrightnessMax :: real
  SkinThreshold :: real
  SkinWeight :: real
  SaturationBrightnessMin :: real
  SaturationBrightnessMax :: real
  SaturationThreshold :: real
  SaturationBias :: real
  SaturationWeight :: real
  ScoreDownSample :: int
  Step :: int
  ScaleStep :: real
  MinScale :: real
  MaxScale :: real
  EdgeRadius :: real
  EdgeWeight :: real
  OutsideImportance :: real
  RuleOfThirds :: bool
  Prescale :: bool
  PrescaleMin :: real
  FaceDetectEnabled :: bool
  FaceDetectClassifierFile :: string


definition FaceDetectConfig :: Config where
  "FaceDetectConfig = \<lparr>
     DetailWeight = 5.2, SkinBias = 0.01, SkinBrightnessMin = 0.2, SkinBrightnessMax = 1.0,
     SkinThreshold = 0.8, SkinWeight = 5.8, SaturationBrightnessMin = 0.05,
     SaturationBrightnessMax = 0.9, SaturationThreshold = 0.4, SaturationBias = 0.2,
     SaturationWeight = 5.5, ScoreDownSample = 2, Step = 8, ScaleStep = 0.1,
     MinScale = 1.0, MaxScale = 1.0, EdgeRadius = 0.4, EdgeWeight = -20.0,
     OutsideImportance = -0.5, RuleOfThirds = True, Prescale = False, PrescaleMin = 400.0,
     FaceDetectEnabled = True, FaceDetectClassifierFile = ''''\<rparr>"

section \<open>The selector\<close>

text \<open>
  \<^verbatim>\<open>findTopCrop\<close>: the loop over \<^verbatim>\<open>cs\<close> carries \<^verbatim>\<open>topCrop\<close> and \<^verbatim>\<open>topScore\<close>.
\<close>

fun findTopCrop_loop :: "Crop list \<Rightarrow> Crop \<Rightarrow> f64 \<Rightarrow> Crop" where
  "findTopCrop_loop [] topCrop topScore = topCrop"
| "findTopCrop_loop (crop # cs) topCrop topScore =
     (if fgt (Total (Score crop)) topScore
      then findTopCrop_loop cs crop (Total (Score crop))
      else findTopCrop_loop cs topCrop topScore)"

definition findTopCrop :: "Crop list \<Rightarrow> Crop" where
  "findTopCrop cs = findTopCrop_loop cs Crop0 (Fin (- 1.0))"

section \<open>Pixel buffers\<close>

text \<open>
  \<^verbatim>\<open>color.RGBA\<close> and \<^verbatim>\<open>image.RGBA\<close>. The byte slice \<^verbatim>\<open>Pix\<close> with its stride is
  modelled as a function from coordinates to colours; only the coordinates inside
  \<open>Bounds\<close> are ever read or written, as \<^verbatim>\<open>RGBAAt\<close> and \<^verbatim>\<open>SetRGBA\<close> check.
  The image handed to the analyser is taken to be an \<^verbatim>\<open>*image.RGBA\<close> already, which
  \<^verbatim>\<open>toRGBA\<close> returns as it is.
\<close>

record rgba =
  cR :: "8 word"
  cG :: "8 word"
  cB :: "8 word"
  cA :: "8 word"

definition RGBA0 :: rgba where
  "RGBA0 = \<lparr>cR = 0, cG = 0, cB = 0, cA = 0\<rparr>"

record image =
  Bounds :: rectangle
  Pix :: "int \<times> int \<Rightarrow> rgba"

definition NewRGBA :: "rectangle \<Rightarrow> image" where
  "NewRGBA r = \<lparr>Bounds = r, Pix = (\<lambda>_. RGBA0)\<rparr>"

definition RGBAAt :: "image \<Rightarrow> int \<Rightarrow> int \<Rightarrow> rgba" where
  "RGBAAt p x y = (if PtIn x y (Bounds p) then Pix p (x, y) else RGBA0)"

definition SetRGBA :: "image \<Rightarrow> int \<Rightarrow> int \<Rightarrow> rgba \<Rightarrow> image" where
  "SetRGBA p x y c = (if PtIn x y (Bounds p) then p\<lparr>Pix := (Pix p)((x, y) := c)\<rparr> else p)"

definition toRGBA :: "image \<Rightarrow> image" where
  "toRGBA img = img"

text \<open>
  The loop nest
  \<^verbatim>\<open>for y := 0; y < height; y++ { for x := 0; x < width; x++ { ... } }\<close>
  shared by the three extractors, threading the output buffer.
\<close>

definition for_pixels :: "int \<Rightarrow> int \<Rightarrow> (int \<Rightarrow> int \<Rightarrow> 's \<Rightarrow> 's) \<Rightarrow> 's \<Rightarrow> 's" where
  "for_pixels width height body s =
     fold (\<lambda>y. fold (\<lambda>x. body x y) [0..width - 1]) [0..height - 1] s"

section \<open>Feature extractors\<close>

definition u8f :: "8 word \<Rightarrow> real" where
  "u8f w = real (unat w)"

text \<open>\<^verbatim>\<open>func saturation(c color.RGBA) float64\<close>. Neither division can be by zero:
  the extremes differ when one is reached.\<close>

definition saturation :: "rgba \<Rightarrow> real" where
  "saturation c =
     (let cMax = (0 :: 8 word); cMin = (255 :: 8 word);
          cMax = (if cR c > cMax then cR c else cMax);
          cMin = (if cR c < cMin then cR c else cMin);
          cMax = (if cG c > cMax then cG c else cMax);
          cMin = (if cG c < cMin then cG c else cMin);
          cMax = (if cB c > cMax then cB c else cMax);
          cMin = (if cB c < cMin then cB c else cMin)
      in if cMax = cMin then 0
         else let maximum = u8f cMax / 255.0; minimum = u8f cMin / 255.0;
                  l = (maximum + minimum) / 2.0; d = maximum - minimum
              in if l > 0.5 then d / (2.0 - maximum - minimum)
                 else d / (maximum + minimum))"

text \<open>\<^verbatim>\<open>func cie(c color.RGBA) float64\<close>\<close>

definition cie :: "rgba \<Rightarrow> real" where
  "cie c = 0.5126 * u8f (cB c) + 0.7152 * u8f (cG c) + 0.0722 * u8f (cR c)"

text \<open>\<^verbatim>\<open>func skinCol(c color.RGBA) float64\<close>, with \<^verbatim>\<open>skinColor = {0.78, 0.57, 0.44}\<close>.
  A black pixel has magnitude zero and yields \<open>NaN\<close>.\<close>

definition skinCol :: "rgba \<Rightarrow> f64" where
  "skinCol c =
     (let r8 = u8f (cR c); g8 = u8f (cG c); b8 = u8f (cB c);
          mag = Fin (sqrt (r8 * r8 + g8 * g8 + b8 * b8));
          rd = fsub (fdiv (Fin r8) mag) (Fin 0.78);
          gd = fsub (fdiv (Fin g8) mag) (Fin 0.57);
          bd = fsub (fdiv (Fin b8) mag) (Fin 0.44);
          d = fsqrt (fadd (fadd (fmul rd rd) (fmul gd gd)) (fmul bd bd))
      in fsub (Fin 1.0) d)"

text \<open>\<^verbatim>\<open>func makeCies(img *image.RGBA) []float64\<close>: the slice filled row by row.\<close>

definition makeCies :: "image \<Rightarrow> real list" where
  "makeCies img =
     (let width = Dx (Bounds img); height = Dy (Bounds img)
      in concat (map (\<lambda>y. map (\<lambda>x. cie (RGBAAt img x y)) [0..width - 1]) [0..height - 1]))"

text \<open>\<^verbatim>\<open>cies[k]\<close> for an integer index.\<close>

definition idx :: "real list \<Rightarrow> int \<Rightarrow> real" where
  "idx cies k = cies ! nat k"

definition edgeDetect :: "image \<Rightarrow> image \<Rightarrow> image" where
  "edgeDetect i o' =
     (let width = Dx (Bounds i); height = Dy (Bounds i); cies = makeCies i
      in for_pixels width height
           (\<lambda>x y o'.
              let lightness =
                    (if x = 0 \<or> x \<ge> width - 1 \<or> y = 0 \<or> y \<ge> height - 1 then 0
                     else idx cies (y * width + x) * 4.0
                          - idx cies (x + (y - 1) * width)
                          - idx cies (x - 1 + y * width)
                          - idx cies (x + 1 + y * width)
                          - idx cies (x + (y + 1) * width));
                  nc = \<lparr>cR = 0, cG = f64_to_uint8 (bounds (Fin lightness)), cB = 0, cA = 255\<rparr>
              in SetRGBA o' x y nc)
           o')"

definition skinDetect :: "Config \<Rightarrow> image \<Rightarrow> image \<Rightarrow> image" where
  "skinDetect cfg i o' =
     (let width = Dx (Bounds i); height = Dy (Bounds i)
      in for_pixels width height
           (\<lambda>x y o'.
              let lightness = cie (RGBAAt i x y) / 255.0;
                  skin = skinCol (RGBAAt i x y);
                  c = RGBAAt o' x y
              in if fgt skin (Fin (SkinThreshold cfg)) \<and> lightness \<ge> SkinBrightnessMin cfg
                    \<and> lightness \<le> SkinBrightnessMax cfg
                 then let r = fmul (fsub skin (Fin (SkinThreshold cfg)))
                                   (fdiv (Fin 255.0) (Fin (1.0 - SkinThreshold cfg)));
                          nc = \<lparr>cR = f64_to_uint8 (bounds r), cG = cG c, cB = cB c, cA = 255\<rparr>
                      in SetRGBA o' x y nc
                 else let nc = \<lparr>cR = 0, cG = cG c, cB = cB c, cA = 255\<rparr>
                      in SetRGBA o' x y nc)
           o')"

definition saturationDetect :: "Config \<Rightarrow> image \<Rightarrow> image \<Rightarrow> image" where
  "saturationDetect cfg i o' =
     (let width = Dx (Bounds i); height = Dy (Bounds i)
      in for_pixels width height
           (\<lambda>x y o'.
              let lightness = cie (RGBAAt i x y) / 255.0;
                  sat = saturation (RGBAAt i x y);
                  c = RGBAAt o' x y
              in if sat > SaturationThreshold cfg \<and> lightness \<ge> SaturationBrightnessMin cfg
                    \<and> lightness \<le> SaturationBrightnessMax cfg
                 then let b = fmul (Fin (sat - SaturationThreshold cfg))
                                   (fdiv (Fin 255.0) (Fin (1.0 - SaturationThreshold cfg)));
                          nc = \<lparr>cR = cR c, cG = cG c, cB = f64_to_uint8 (bounds b), cA = 255\<rparr>
                      in SetRGBA o' x y nc
                 else let nc = \<lparr>cR = cR c, cG = cG c, cB = 0, cA = 255\<rparr>
                      in SetRGBA o' x y nc)
           o')"

section \<open>Loops that need not end\<close>

text \<open>
  \<^verbatim>\<open>for i := i0; cond(i); i = post(i) { body }\<close> over a state \<open>s\<close>. The strides of
  the scorer and of the generator come from the configuration, and nothing in the source
  checks that they are positive: with a stride of zero the loop runs forever. The value
  \<open>None\<close> stands for a loop that does not end.
\<close>

partial_function (option) for_loop ::
  "('i \<Rightarrow> bool) \<Rightarrow> ('i \<Rightarrow> 'i) \<Rightarrow> ('i \<Rightarrow> 's \<Rightarrow> 's option) \<Rightarrow> 'i \<Rightarrow> 's \<Rightarrow> 's option" where
  "for_loop cond post body i s =
     (if cond i then Option.bind (body i s) (for_loop cond post body (post i)) else Some s)"

section \<open>The scorer\<close>

text \<open>\<^verbatim>\<open>math.Mod\<close> on finite arguments: the remainder has the sign of \<open>x\<close>.\<close>

definition Mod :: "real \<Rightarrow> real \<Rightarrow> real" where
  "Mod x y = x - y * real_of_int (trunc (x / y))"

definition thirds :: "real \<Rightarrow> real" where
  "thirds x0 =
     (let x = (Mod (x0 - (1.0 / 3.0) + 1.0) 2.0 * 0.5 - 0.5) * 16.0
      in max (1.0 - x * x) 0.0)"

text \<open>
  \<^verbatim>\<open>importance\<close>. Past the first test the point lies inside the crop, whose width and
  height are then positive, so the two divisions are by positive numbers.
\<close>

definition importance :: "Config \<Rightarrow> Crop \<Rightarrow> int \<Rightarrow> int \<Rightarrow> real" where
  "importance cfg crop x y =
     (let r = Rectangle crop in
      if MinX r > x \<or> x \<ge> MaxX r \<or> MinY r > y \<or> y \<ge> MaxY r then OutsideImportance cfg
      else
        let xf = real_of_int (x - MinX r) / real_of_int (Dx r);
            yf = real_of_int (y - MinY r) / real_of_int (Dy r);
            px = \<bar>0.5 - xf\<bar> * 2.0;
            py = \<bar>0.5 - yf\<bar> * 2.0;
            dx = max (px - 1.0 + EdgeRadius cfg) 0.0;
            dy = max (py - 1.0 + EdgeRadius cfg) 0.0;
            d = (dx * dx + dy * dy) * EdgeWeight cfg;
            s = 1.41 - sqrt (px * px + py * py);
            s = (if RuleOfThirds cfg
                 then s + (max 0.0 (s + d + 0.5) * 1.2) * (thirds px + thirds py)
                 else s)
        in s + d)"

text \<open>The body of the sampling loops of \<^verbatim>\<open>score\<close>, at one sample point.\<close>

definition score_sample :: "Config \<Rightarrow> image \<Rightarrow> Crop \<Rightarrow> int \<Rightarrow> int \<Rightarrow> Score \<Rightarrow> Score" where
  "score_sample cfg output crop x y score =
     (let c = RGBAAt output x y;
          r8 = u8f (cR c); g8 = u8f (cG c); b8 = u8f (cB c);
          imp = importance cfg crop x y;
          det = g8 / 255.0
      in score\<lparr>Skin := fadd (Skin score) (Fin (r8 / 255.0 * (det + SkinBias cfg) * imp)),
               Detail := fadd (Detail score) (Fin (det * imp)),
               Saturation :=
                 fadd (Saturation score) (Fin (b8 / 255.0 * (det + SaturationBias cfg) * imp))\<rparr>)"

text \<open>The loop over the face boxes.\<close>

fun score_faces :: "Crop \<Rightarrow> rectangle list \<Rightarrow> Score \<Rightarrow> Score" where
  "score_faces crop [] score = score"
| "score_faces crop (r # faceRects) score =
     (let cropRes = Dx (Rectangle crop) * Dy (Rectangle crop) in
      if In r (Rectangle crop)
      then let faceRes = Dx r * Dy r
           in score_faces crop faceRects
                (score\<lparr>Face := fadd (Face score) (fdiv (of_int64 faceRes) (of_int64 cropRes))\<rparr>)
      else score_faces crop faceRects score)"

text \<open>The last three assignments of \<^verbatim>\<open>score\<close>.\<close>

definition score_total :: "Config \<Rightarrow> Crop \<Rightarrow> Score \<Rightarrow> Score" where
  "score_total cfg crop score =
     (let t = fadd (fadd (fmul (Detail score) (Fin (DetailWeight cfg)))
                         (fmul (Skin score) (Fin (SkinWeight cfg))))
                   (fmul (Saturation score) (Fin (SaturationWeight cfg)));
          t = fdiv t (fmul (of_int64 (Dx (Rectangle crop))) (of_int64 (Dy (Rectangle crop))));
          t = fadd t (Face score)
      in score\<lparr>Total := t\<rparr>)"

text \<open>
  \<^verbatim>\<open>score\<close>. The source tests \<^verbatim>\<open>oca.FaceDetectEnabled\<close> and names its parameter
  \<^verbatim>\<open>faceRescts\<close>; they are read as \<^verbatim>\<open>sca.config.FaceDetectEnabled\<close> and
  \<^verbatim>\<open>faceRects\<close>, the only names in scope they can stand for.
\<close>

definition score :: "Config \<Rightarrow> image \<Rightarrow> Crop \<Rightarrow> rectangle list \<Rightarrow> Score option" where
  "score cfg output crop faceRects =
     (let width = Dx (Bounds output); height = Dy (Bounds output);
          ds = ScoreDownSample cfg
      in Option.bind
           (for_loop (\<lambda>y. y \<le> height - ds) (\<lambda>y. y + ds)
              (\<lambda>y. for_loop (\<lambda>x. x \<le> width - ds) (\<lambda>x. x + ds)
                      (\<lambda>x sc. Some (score_sample cfg output crop x y sc)) 0)
              0 Score0)
           (\<lambda>sc. let sc = (if FaceDetectEnabled cfg then score_faces crop faceRects sc else sc)
                  in Some (score_total cfg crop sc)))"

section \<open>The face locator\<close>

text \<open>
  The detector is an external capability. What \<^verbatim>\<open>faceDetect\<close> can observe of it:
  the image cannot be converted, the classifier file cannot be loaded, or boxes come back.
\<close>

datatype detection = ConvertError | LoadFailure | Detected "rectangle list"

datatype panic = ClassifierLoadPanic

definition faceDetect :: "(image \<Rightarrow> detection) \<Rightarrow> image \<Rightarrow> panic + rectangle list" where
  "faceDetect detect i =
     (case detect i of
        ConvertError \<Rightarrow> Inr []
      | LoadFailure \<Rightarrow> Inl ClassifierLoadPanic
      | Detected rects \<Rightarrow>
          let origRes = Dx (Bounds i) * Dy (Bounds i);
              thresholdRes = 0.05 * real_of_int origRes
          in Inr (filter (\<lambda>r. real_of_int (Dx r * Dy r) > thresholdRes) rects))"

section \<open>The candidate generator\<close>

definition crops :: "Config \<Rightarrow> image \<Rightarrow> f64 \<Rightarrow> f64 \<Rightarrow> f64 \<Rightarrow> Crop list option" where
  "crops cfg i cropWidth cropHeight realMinScale =
     (let width = Dx (Bounds i); height = Dy (Bounds i);
          minDimension = fmin (of_int64 width) (of_int64 height);
          cropW = (if fne cropWidth (Fin 0.0) then cropWidth else minDimension);
          cropH = (if fne cropHeight (Fin 0.0) then cropHeight else minDimension)
      in for_loop (\<lambda>scale. fge (Fin scale) realMinScale) (\<lambda>scale. scale - ScaleStep cfg)
           (\<lambda>scale.
              for_loop (\<lambda>y. fle (fadd (of_int64 y) (fmul cropH (Fin scale))) (of_int64 height))
                (\<lambda>y. y + Step cfg)
                (\<lambda>y.
                   for_loop
                     (\<lambda>x. fle (fadd (of_int64 x) (fmul cropW (Fin scale))) (of_int64 width))
                     (\<lambda>x. x + Step cfg)
                     (\<lambda>x res.
                        Some (res @
                          [\<lparr>Rectangle =
                              Rect x y (x + f64_to_int (fmul cropW (Fin scale)))
                                       (y + f64_to_int (fmul cropH (Fin scale))),
                            Score = Score0\<rparr>]))
                     0)
                0)
           (MaxScale cfg) [])"

section \<open>Analysis\<close>

text \<open>The loop of \<^verbatim>\<open>analyse\<close> that fills in the score of every candidate.\<close>

fun score_all :: "Config \<Rightarrow> image \<Rightarrow> rectangle list \<Rightarrow> Crop list \<Rightarrow> Crop list option" where
  "score_all cfg o' faceRects [] = Some []"
| "score_all cfg o' faceRects (crop # cs) =
     Option.bind (score cfg o' crop faceRects)
       (\<lambda>sc. Option.bind (score_all cfg o' faceRects cs)
                (\<lambda>cs'. Some (crop\<lparr>Score := sc\<rparr> # cs')))"

text \<open>
  \<^verbatim>\<open>analyse\<close>, without its logging and debug output. The call
  \<^verbatim>\<open>sca.score(o, crop)\<close> of the source lacks the third argument of \<^verbatim>\<open>score\<close>; the
  boxes found just before are passed.
\<close>

definition analyse ::
  "Config \<Rightarrow> (image \<Rightarrow> detection) \<Rightarrow> image \<Rightarrow> f64 \<Rightarrow> f64 \<Rightarrow> f64
     \<Rightarrow> (panic + Crop list \<times> image) option" where
  "analyse cfg detect img cropWidth cropHeight realMinScale =
     (let o' = NewRGBA (Bounds img);
          o' = edgeDetect img o';
          o' = skinDetect cfg img o';
          o' = saturationDetect cfg img o'
      in case (if FaceDetectEnabled cfg then faceDetect detect img else Inr []) of
           Inl p \<Rightarrow> Some (Inl p)
         | Inr faceRects \<Rightarrow>
             Option.bind (crops cfg o' cropWidth cropHeight realMinScale)
               (\<lambda>cs. Option.bind (score_all cfg o' faceRects cs)
                        (\<lambda>cs. Some (Inr (cs, o')))))"

section \<open>The entry points\<close>

datatype error = ErrInvalidDimensions

text \<open>Conversion to \<^verbatim>\<open>uint\<close>: through the 64-bit integer, reduced modulo \<open>2 ^ 64\<close>.\<close>

definition f64_to_uint :: "f64 \<Rightarrow> nat" where
  "f64_to_uint x = nat (f64_to_int x mod 2 ^ 64)"

text \<open>
  \<^verbatim>\<open>preprocessForAnalysis\<close>. The resizer is the external capability
  \<^verbatim>\<open>Resize(img, width, height uint)\<close>.
\<close>

definition preprocessForAnalysis ::
  "Config \<Rightarrow> (image \<Rightarrow> nat \<Rightarrow> nat \<Rightarrow> image) \<Rightarrow> image \<Rightarrow> int \<Rightarrow> int
     \<Rightarrow> image \<times> f64 \<times> f64 \<times> f64 \<times> f64" where
  "preprocessForAnalysis cfg Resize img width height =
     (let scale = fmin (fdiv (of_int64 (Dx (Bounds img))) (of_int64 width))
                       (fdiv (of_int64 (Dy (Bounds img))) (of_int64 height));
          f = fdiv (Fin (PrescaleMin cfg))
                   (fmin (of_int64 (Dx (Bounds img))) (of_int64 (Dy (Bounds img))));
          prescalefactor = (if Prescale cfg \<and> flt f (Fin 1.0) then f else Fin 1.0);
          rgbaImg =
            (if Prescale cfg
             then toRGBA (Resize img
                            (f64_to_uint (fmul (of_int64 (Dx (Bounds img))) prescalefactor)) 0)
             else toRGBA img);
          cropWidth = chop (fmul (fmul (of_int64 width) scale) prescalefactor);
          cropHeight = chop (fmul (fmul (of_int64 height) scale) prescalefactor);
          realMinScale =
            fmin (Fin (MaxScale cfg)) (fmax (fdiv (Fin 1.0) scale) (Fin (MinScale cfg)))
      in (rgbaImg, cropWidth, cropHeight, realMinScale, prescalefactor))"

text \<open>\<^verbatim>\<open>int(chop(float64(v) / prescalefactor))\<close>, applied to the four coordinates.\<close>

definition unscale :: "f64 \<Rightarrow> int \<Rightarrow> int" where
  "unscale prescalefactor v = f64_to_int (chop (fdiv (of_int64 v) prescalefactor))"

definition unscaleRect :: "f64 \<Rightarrow> rectangle \<Rightarrow> rectangle" where
  "unscaleRect prescalefactor r =
     r\<lparr>MinX := unscale prescalefactor (MinX r), MinY := unscale prescalefactor (MinY r),
       MaxX := unscale prescalefactor (MaxX r), MaxY := unscale prescalefactor (MaxY r)\<rparr>"

text \<open>
  \<^verbatim>\<open>FindBestCrop\<close>. A result is \<open>None\<close> when the call does not return, \<open>Inl\<close> when it
  panics, and otherwise the pair of Go results: the rectangle and the error.
\<close>

definition FindBestCrop ::
  "Config \<Rightarrow> (image \<Rightarrow> nat \<Rightarrow> nat \<Rightarrow> image) \<Rightarrow> (image \<Rightarrow> detection) \<Rightarrow> image \<Rightarrow> int \<Rightarrow> int
     \<Rightarrow> (panic + rectangle \<times> error option) option" where
  "FindBestCrop cfg Resize detect img width height =
     (if width = 0 \<and> height = 0 then Some (Inr (ZR, Some ErrInvalidDimensions))
      else
        case preprocessForAnalysis cfg Resize img width height of
          (rgbaImg, cropWidth, cropHeight, realMinScale, prescalefactor) \<Rightarrow>
            (case analyse cfg detect rgbaImg cropWidth cropHeight realMinScale of
               None \<Rightarrow> None
             | Some (Inl p) \<Rightarrow> Some (Inl p)
             | Some (Inr (allCrops, processedImg)) \<Rightarrow>
                 let topCrop = Rectangle (findTopCrop allCrops);
                     topCrop = (if Prescale cfg then unscaleRect prescalefactor topCrop
                                else topCrop)
                 in Some (Inr (Canon topCrop, None))))"

text \<open>
  \<^verbatim>\<open>FindAllCrops\<close>. Its loop assigns \<^verbatim>\<open>crop.Canon()\<close> to the loop variable, a copy
  of the element, so the returned slice keeps the rescaled rectangles as they are.
\<close>

definition FindAllCrops ::
  "Config \<Rightarrow> (image \<Rightarrow> nat \<Rightarrow> nat \<Rightarrow> image) \<Rightarrow> (image \<Rightarrow> detection) \<Rightarrow> image \<Rightarrow> int \<Rightarrow> int
     \<Rightarrow> (panic + Crop list \<times> error option) option" where
  "FindAllCrops cfg Resize detect img width height =
     (if width = 0 \<and> height = 0 then Some (Inr ([], Some ErrInvalidDimensions))
      else
        case preprocessForAnalysis cfg Resize img width height of
          (rgbaImg, cropWidth, cropHeight, realMinScale, prescalefactor) \<Rightarrow>
            (case analyse cfg detect rgbaImg cropWidth cropHeight realMinScale of
               None \<Rightarrow> None
             | Some (Inl p) \<Rightarrow> Some (Inl p)
             | Some (Inr (allCrops, _)) \<Rightarrow>
                 Some (Inr (map (\<lambda>crop.
                                   if Prescale cfg
                                   then crop\<lparr>Rectangle := unscaleRect prescalefactor (Rectangle crop)\<rparr>
                                   else crop) allCrops,
                            None))))"

section \<open>Notions of the specification\<close>

text \<open>
  The luma of the specification, \<open>0.0722\<cdot>R + 0.7152\<cdot>G + 0.5126\<cdot>B\<close>, of the source pixel
  at \<open>(x, y)\<close>.
\<close>

definition luma :: "image \<Rightarrow> int \<Rightarrow> int \<Rightarrow> real" where
  "luma i x y =
     (let c = RGBAAt i x y
      in 0.0722 * real (unat (cR c)) + 0.7152 * real (unat (cG c)) + 0.5126 * real (unat (cB c)))"

text \<open>
  The pixels an extractor run on source \<open>i\<close> and output \<open>p\<close> writes: those its loops
  reach that lie inside the output buffer.
\<close>

definition visited :: "image \<Rightarrow> image \<Rightarrow> int \<Rightarrow> int \<Rightarrow> bool" where
  "visited i p x y =
     (0 \<le> x \<and> x < Dx (Bounds i) \<and> 0 \<le> y \<and> y < Dy (Bounds i) \<and> PtIn x y (Bounds p))"






text \<open>A rectangle in canonical form: its minimum is not beyond its maximum.\<close>

definition canonical :: "rectangle \<Rightarrow> bool" where
  "canonical r = (MinX r \<le> MaxX r \<and> MinY r \<le> MaxY r)"

section \<open>Concrete inputs\<close>

text \<open>
  A uniform image, a detector that finds no face, a resizer that hands the image back
  (as a resizer does when the size asked for is the size of the image).
\<close>

definition red :: rgba where
  "red = \<lparr>cR = 255, cG = 0, cB = 0, cA = 255\<rparr>"

definition flat :: "rectangle \<Rightarrow> rgba \<Rightarrow> image" where
  "flat r c = \<lparr>Bounds = r, Pix = (\<lambda>_. c)\<rparr>"

definition no_faces :: "image \<Rightarrow> detection" where
  "no_faces i = Detected []"

definition same_size :: "image \<Rightarrow> nat \<Rightarrow> nat \<Rightarrow> image" where
  "same_size img w h = img"

text \<open>
  The 2 by 2 red image under \<open>FaceDetectConfig\<close>: its only candidate, its feature buffer
  and the score of the candidate.
\<close>

definition red_crop :: Crop where
  "red_crop = \<lparr>Rectangle = Rect 0 0 2 2, Score = Score0\<rparr>"

definition red_features :: image where
  "red_features =
     saturationDetect FaceDetectConfig (flat (Rect 0 0 2 2) red)
       (skinDetect FaceDetectConfig (flat (Rect 0 0 2 2) red)
          (edgeDetect (flat (Rect 0 0 2 2) red) (NewRGBA (Rect 0 0 2 2))))"

definition red_score :: Score where
  "red_score =
     \<lparr>Detail = Fin 0, Saturation = Fin (2 / 10 * (141 / 100 - sqrt 2 - 64 / 10)), Skin = Fin 0,
      Face = Fin 0,
      Total = Fin (2 / 10 * (141 / 100 - sqrt 2 - 64 / 10) * (55 / 10) / 4)\<rparr>"


section \<open>Numbers and rectangles\<close>


lemma trunc_mono: "a \<le> b \<Longrightarrow> trunc a \<le> trunc b"
proof -
  assume ab: "a \<le> b"
  show ?thesis
  proof (cases "a < 0")
    case False
    with ab show ?thesis by (simp add: trunc_def floor_mono)
  next
    case True
    show ?thesis
    proof (cases "b < 0")
      case True
      with \<open>a < 0\<close> ab show ?thesis by (simp add: trunc_def ceiling_mono)
    next
      case False
      from \<open>a < 0\<close> have "\<lceil>a\<rceil> \<le> 0" by (simp add: ceiling_le_iff)
      moreover from False have "0 \<le> \<lfloor>b\<rfloor>" by simp
      ultimately have "\<lceil>a\<rceil> \<le> \<lfloor>b\<rfloor>" by (rule order_trans)
      then show ?thesis using \<open>a < 0\<close> False by (simp add: trunc_def)
    qed
  qed
qed

lemma bounds_Fin: "bounds (Fin l) = Fin (min 255 (max 0 l))"
  by (auto simp: bounds_def fmin_def fmax_def)


lemma fle_not_fgt: "fle a b \<Longrightarrow> \<not> fgt a b"
  by (cases a; cases b) (auto simp: fgt_def)


lemma flt_trans: "flt a b \<Longrightarrow> flt b c \<Longrightarrow> flt a c"
  by (cases a; cases b; cases c) auto

lemma flt_fle_trans: "flt a b \<Longrightarrow> fle b c \<Longrightarrow> flt a c"
  by (cases a; cases b; cases c) auto

lemma flt_not_fle: "flt a b \<Longrightarrow> \<not> fle b a"
  by (cases a; cases b) auto

lemma flt_fle: "flt a b \<Longrightarrow> fle a b"
  by (cases a; cases b) auto

lemma canonical_Rect: "canonical (Rect x0 y0 x1 y1)"
  by (simp add: canonical_def Rect_def)

lemma canonical_Canon: "canonical r \<Longrightarrow> Canon r = r"
  by (simp add: canonical_def Canon_def Let_def)




lemma Canon_ZR: "Canon ZR = ZR"
  by (simp add: Canon_def ZR_def Let_def)

lemma In_iff_points: "In r s \<longleftrightarrow> (\<forall>x y. PtIn x y r \<longrightarrow> PtIn x y s)"
proof (cases "Empty r")
  case True
  then show ?thesis by (auto simp: In_def Empty_def PtIn_def)
next
  case False
  then have ne: "MinX r < MaxX r" "MinY r < MaxY r" by (auto simp: Empty_def)
  show ?thesis
  proof
    assume "In r s"
    with False show "\<forall>x y. PtIn x y r \<longrightarrow> PtIn x y s" by (auto simp: In_def PtIn_def)
  next
    assume a: "\<forall>x y. PtIn x y r \<longrightarrow> PtIn x y s"
    have "PtIn (MinX r) (MinY r) r" "PtIn (MaxX r - 1) (MaxY r - 1) r"
      using ne by (auto simp: PtIn_def)
    with a have "PtIn (MinX r) (MinY r) s" "PtIn (MaxX r - 1) (MaxY r - 1) s" by blast+
    then show "In r s" by (auto simp: In_def PtIn_def)
  qed
qed





section \<open>Loops\<close>


lemma for_loop_invariant:
  assumes "for_loop cond post body i s = Some s'" and "P s"
    and "\<And>j t t'. P t \<Longrightarrow> body j t = Some t' \<Longrightarrow> P t'"
  shows "P s'"
proof -
  have "(\<forall>j t t'. P t \<longrightarrow> body j t = Some t' \<longrightarrow> P t') \<longrightarrow> P s \<longrightarrow> P s'"
  proof (rule for_loop.raw_induct
      [where P = "\<lambda>cond post body i s s'. (\<forall>j t t'. P t \<longrightarrow> body j t = Some t' \<longrightarrow> P t') \<longrightarrow> P s \<longrightarrow> P s'",
        OF _ assms(1)], goal_cases)
    case (1 fl cond post body i s r)
    show ?case
    proof (intro impI)
      assume b: "\<forall>j t t'. P t \<longrightarrow> body j t = Some t' \<longrightarrow> P t'" and s: "P s"
      show "P r"
      proof (cases "cond i")
        case False
        with 1(2) s show ?thesis by simp
      next
        case True
        with 1(2) obtain t where t: "body i s = Some t" and r: "fl cond post body (post i) t = Some r"
          by (auto simp: bind_eq_Some_conv)
        from b s t have "P t" by blast
        with 1(1) [OF r] b show ?thesis by blast
      qed
    qed
  qed
  with assms(2,3) show ?thesis by blast
qed









section \<open>Properties of the selector\<close>

lemma findTopCrop_loop_keep:
  "(\<And>c. c \<in> set cs \<Longrightarrow> \<not> fgt (Total (Score c)) ts) \<Longrightarrow> findTopCrop_loop cs tc ts = tc"
  by (induction cs) auto

lemma findTopCrop_all_low:
  "(\<And>c. c \<in> set cs \<Longrightarrow> fle (Total (Score c)) (Fin (- 1))) \<Longrightarrow> findTopCrop cs = Crop0"
  unfolding findTopCrop_def by (rule findTopCrop_loop_keep) (simp add: fle_not_fgt)



text \<open>
  When some candidate has a total above \<open>-1\<close>, the selector returns the first candidate
  of maximum total: the candidates before it are not greater or equal, those after it are
  not greater.
\<close>

lemma findTopCrop_loop_first_max:
  "(findTopCrop_loop cs tc ts = tc \<and> (\<forall>d \<in> set cs. \<not> fgt (Total (Score d)) ts))
   \<or> (\<exists>pre c post. cs = pre @ c # post \<and> findTopCrop_loop cs tc ts = c
          \<and> fgt (Total (Score c)) ts
          \<and> (\<forall>d \<in> set pre. \<not> fge (Total (Score d)) (Total (Score c)))
          \<and> (\<forall>d \<in> set post. \<not> fgt (Total (Score d)) (Total (Score c))))"
proof (induction cs arbitrary: tc ts)
  case Nil
  then show ?case by simp
next
  case (Cons x xs)
  show ?case
  proof (cases "fgt (Total (Score x)) ts")
    case True
    from Cons.IH [of x "Total (Score x)"] show ?thesis
    proof
      assume "findTopCrop_loop xs x (Total (Score x)) = x
          \<and> (\<forall>d \<in> set xs. \<not> fgt (Total (Score d)) (Total (Score x)))"
      with True have "x # xs = [] @ x # xs \<and> findTopCrop_loop (x # xs) tc ts = x
          \<and> fgt (Total (Score x)) ts
          \<and> (\<forall>d \<in> set []. \<not> fge (Total (Score d)) (Total (Score x)))
          \<and> (\<forall>d \<in> set xs. \<not> fgt (Total (Score d)) (Total (Score x)))" by simp
      then show ?thesis by blast
    next
      assume "\<exists>pre c post. xs = pre @ c # post \<and> findTopCrop_loop xs x (Total (Score x)) = c
          \<and> fgt (Total (Score c)) (Total (Score x))
          \<and> (\<forall>d \<in> set pre. \<not> fge (Total (Score d)) (Total (Score c)))
          \<and> (\<forall>d \<in> set post. \<not> fgt (Total (Score d)) (Total (Score c)))"
      then obtain pre c post where h: "xs = pre @ c # post"
          "findTopCrop_loop xs x (Total (Score x)) = c"
          "fgt (Total (Score c)) (Total (Score x))"
          "\<forall>d \<in> set pre. \<not> fge (Total (Score d)) (Total (Score c))"
          "\<forall>d \<in> set post. \<not> fgt (Total (Score d)) (Total (Score c))" by blast
      from h(3) True have g: "fgt (Total (Score c)) ts"
        unfolding fgt_def by (blast intro: flt_trans)
      from h(3) have n: "\<not> fge (Total (Score x)) (Total (Score c))"
        unfolding fgt_def fge_def by (rule flt_not_fle)
      from True h g n have "x # xs = (x # pre) @ c # post \<and> findTopCrop_loop (x # xs) tc ts = c
          \<and> fgt (Total (Score c)) ts
          \<and> (\<forall>d \<in> set (x # pre). \<not> fge (Total (Score d)) (Total (Score c)))
          \<and> (\<forall>d \<in> set post. \<not> fgt (Total (Score d)) (Total (Score c)))" by simp
      then show ?thesis by blast
    qed
  next
    case False
    from Cons.IH [of tc ts] show ?thesis
    proof
      assume "findTopCrop_loop xs tc ts = tc \<and> (\<forall>d \<in> set xs. \<not> fgt (Total (Score d)) ts)"
      with False show ?thesis by simp
    next
      assume "\<exists>pre c post. xs = pre @ c # post \<and> findTopCrop_loop xs tc ts = c
          \<and> fgt (Total (Score c)) ts
          \<and> (\<forall>d \<in> set pre. \<not> fge (Total (Score d)) (Total (Score c)))
          \<and> (\<forall>d \<in> set post. \<not> fgt (Total (Score d)) (Total (Score c)))"
      then obtain pre c post where h: "xs = pre @ c # post"
          "findTopCrop_loop xs tc ts = c"
          "fgt (Total (Score c)) ts"
          "\<forall>d \<in> set pre. \<not> fge (Total (Score d)) (Total (Score c))"
          "\<forall>d \<in> set post. \<not> fgt (Total (Score d)) (Total (Score c))" by blast
      have n: "\<not> fge (Total (Score x)) (Total (Score c))"
      proof
        assume "fge (Total (Score x)) (Total (Score c))"
        with h(3) have "fgt (Total (Score x)) ts"
          unfolding fgt_def fge_def by (rule flt_fle_trans)
        with False show False by simp
      qed
      from False h n have "x # xs = (x # pre) @ c # post \<and> findTopCrop_loop (x # xs) tc ts = c
          \<and> fgt (Total (Score c)) ts
          \<and> (\<forall>d \<in> set (x # pre). \<not> fge (Total (Score d)) (Total (Score c)))
          \<and> (\<forall>d \<in> set post. \<not> fgt (Total (Score d)) (Total (Score c)))" by simp
      then show ?thesis by blast
    qed
  qed
qed

lemma findTopCrop_first_max:
  assumes "\<exists>d \<in> set cs. fgt (Total (Score d)) (Fin (- 1.0))"
  shows "\<exists>pre c post. cs = pre @ c # post \<and> findTopCrop cs = c
          \<and> fgt (Total (Score c)) (Fin (- 1.0))
          \<and> (\<forall>d \<in> set pre. \<not> fge (Total (Score d)) (Total (Score c)))
          \<and> (\<forall>d \<in> set post. \<not> fgt (Total (Score d)) (Total (Score c)))"
  using findTopCrop_loop_first_max [of cs Crop0 "Fin (- 1.0)"] assms
  unfolding findTopCrop_def by blast

text \<open>
  Claim C4. The selector is to return, from a non-empty list, a candidate of greatest
  total, the first of them. On the one-element list whose candidate has total \<open>-2\<close> it
  returns the zero crop, which is not in the list: the running best starts at \<open>-1\<close> and
  only a strictly greater total replaces it.
\<close>

theorem findTopCrop_sentinel:
  "findTopCrop [\<lparr>Rectangle = Rect 0 0 2 2, Score = Score0\<lparr>Total := Fin (- 2)\<rparr>\<rparr>] = Crop0
   \<and> Crop0 \<notin> set [\<lparr>Rectangle = Rect 0 0 2 2, Score = Score0\<lparr>Total := Fin (- 2)\<rparr>\<rparr>]"
  by (simp add: findTopCrop_def fgt_def Crop0_def Score0_def Rect_def ZR_def)

section \<open>Properties of the extractors\<close>

text \<open>What a loop nest that sets every pixel from its old value leaves in the buffer.\<close>

lemma fold_SetRGBA_row:
  "distinct xs \<Longrightarrow>
   Bounds (fold (\<lambda>x p. SetRGBA p x y (f x y (RGBAAt p x y))) xs p) = Bounds p
   \<and> Pix (fold (\<lambda>x p. SetRGBA p x y (f x y (RGBAAt p x y))) xs p) (a, b) =
       (if b = y \<and> a \<in> set xs \<and> PtIn a b (Bounds p) then f a b (Pix p (a, b)) else Pix p (a, b))"
proof (induction xs arbitrary: p)
  case Nil
  then show ?case by simp
next
  case (Cons x xs)
  let ?q = "SetRGBA p x y (f x y (RGBAAt p x y))"
  have B: "Bounds ?q = Bounds p" by (simp add: SetRGBA_def)
  have P: "Pix ?q (a', b') = (if a' = x \<and> b' = y \<and> PtIn a' b' (Bounds p) then f a' b' (Pix p (a', b')) else Pix p (a', b'))" for a' b'
    by (auto simp: SetRGBA_def RGBAAt_def)
  from Cons.prems have d: "distinct xs" and nx: "x \<notin> set xs" by auto
  show ?case
    using Cons.IH [OF d, of ?q] nx by (auto simp: B P)
qed

lemma for_pixels_SetRGBA:
  "Bounds (for_pixels w h (\<lambda>x y p. SetRGBA p x y (f x y (RGBAAt p x y))) p) = Bounds p
   \<and> Pix (for_pixels w h (\<lambda>x y p. SetRGBA p x y (f x y (RGBAAt p x y))) p) (a, b) =
       (if 0 \<le> a \<and> a < w \<and> 0 \<le> b \<and> b < h \<and> PtIn a b (Bounds p)
        then f a b (Pix p (a, b)) else Pix p (a, b))"
proof -
  have rows: "distinct ys \<Longrightarrow>
     Bounds (fold (\<lambda>y. fold (\<lambda>x p. SetRGBA p x y (f x y (RGBAAt p x y))) [0..w - 1]) ys p) = Bounds p
     \<and> Pix (fold (\<lambda>y. fold (\<lambda>x p. SetRGBA p x y (f x y (RGBAAt p x y))) [0..w - 1]) ys p) (a, b) =
       (if b \<in> set ys \<and> 0 \<le> a \<and> a < w \<and> PtIn a b (Bounds p) then f a b (Pix p (a, b)) else Pix p (a, b))"
    for ys p
  proof (induction ys arbitrary: p)
    case Nil
    then show ?case by simp
  next
    case (Cons y ys)
    let ?q = "fold (\<lambda>x p. SetRGBA p x y (f x y (RGBAAt p x y))) [0..w - 1] p"
    have row: "Bounds ?q = Bounds p \<and> Pix ?q (a', b') =
       (if b' = y \<and> a' \<in> set [0..w - 1] \<and> PtIn a' b' (Bounds p) then f a' b' (Pix p (a', b')) else Pix p (a', b'))" for a' b'
      by (rule fold_SetRGBA_row) simp
    from Cons.prems have d: "distinct ys" and ny: "y \<notin> set ys" by auto
    show ?case
      using Cons.IH [OF d, of ?q] ny row by auto
  qed
  show ?thesis
    unfolding for_pixels_def using rows [of "[0..h - 1]" p] by auto
qed

lemma RGBAAt_for_pixels:
  "RGBAAt (for_pixels w h (\<lambda>x y p. SetRGBA p x y (f x y (RGBAAt p x y))) p) a b =
     (if 0 \<le> a \<and> a < w \<and> 0 \<le> b \<and> b < h \<and> PtIn a b (Bounds p)
      then f a b (RGBAAt p a b) else RGBAAt p a b)"
  using for_pixels_SetRGBA [of w h f p a b] by (simp add: RGBAAt_def)

lemma Bounds_fold:
  "(\<And>x q. Bounds (g x q) = Bounds q) \<Longrightarrow> Bounds (fold g xs p) = Bounds p"
  by (induction xs arbitrary: p) auto

lemma Bounds_for_pixels:
  "(\<And>x y q. Bounds (body x y q) = Bounds q) \<Longrightarrow> Bounds (for_pixels w h body p) = Bounds p"
  unfolding for_pixels_def by (intro Bounds_fold) simp

lemma Bounds_SetRGBA: "Bounds (SetRGBA p x y c) = Bounds p"
  by (simp add: SetRGBA_def)

lemma Bounds_edgeDetect: "Bounds (edgeDetect i p) = Bounds p"
  unfolding edgeDetect_def Let_def by (rule Bounds_for_pixels) (simp add: Bounds_SetRGBA)

lemma Bounds_skinDetect: "Bounds (skinDetect cfg i p) = Bounds p"
  unfolding skinDetect_def Let_def by (rule Bounds_for_pixels) (simp add: Bounds_SetRGBA)

lemma Bounds_saturationDetect: "Bounds (saturationDetect cfg i p) = Bounds p"
  unfolding saturationDetect_def Let_def by (rule Bounds_for_pixels) (simp add: Bounds_SetRGBA)

text \<open>The auxiliary slice holds the luma of pixel \<open>(x, y)\<close> at index \<open>y\<cdot>width + x\<close>.\<close>

lemma nth_concat_rows:
  "(\<And>y. length (F y) = n) \<Longrightarrow> k < length ys \<Longrightarrow> j < n \<Longrightarrow>
   concat (map F ys) ! (k * n + j) = F (ys ! k) ! j"
proof (induction ys arbitrary: k)
  case Nil
  then show ?case by simp
next
  case (Cons y ys)
  show ?case
  proof (cases k)
    case 0
    with Cons.prems show ?thesis by (simp add: nth_append)
  next
    case (Suc k')
    with Cons.prems have "k' < length ys" by simp
    from Cons.IH [OF Cons.prems(1) this Cons.prems(3)] Suc Cons.prems(1) [of y]
    show ?thesis by (simp add: nth_append)
  qed
qed

lemma makeCies_idx:
  assumes "0 \<le> x" "x < Dx (Bounds i)" "0 \<le> y" "y < Dy (Bounds i)"
  shows "idx (makeCies i) (y * Dx (Bounds i) + x) = cie (RGBAAt i x y)"
proof -
  let ?w = "Dx (Bounds i)" and ?h = "Dy (Bounds i)"
  let ?F = "\<lambda>y. map (\<lambda>x. cie (RGBAAt i x y)) [0..?w - 1]"
  have len: "\<And>y. length (?F y) = nat ?w" by simp
  have ky: "nat y < length [0..?h - 1]" using assms by simp
  have jx: "nat x < nat ?w" using assms by simp
  have n: "nat (y * ?w + x) = nat y * nat ?w + nat x"
    using assms by (simp add: nat_add_distrib nat_mult_distrib)
  have "concat (map ?F [0..?h - 1]) ! (nat y * nat ?w + nat x) = ?F ([0..?h - 1] ! nat y) ! nat x"
    by (rule nth_concat_rows [OF len ky jx])
  also have "\<dots> = cie (RGBAAt i x y)"
    using assms by simp
  finally show ?thesis
    by (simp add: idx_def makeCies_def Let_def n)
qed

lemma luma_cie: "luma i x y = cie (RGBAAt i x y)"
  by (simp add: luma_def cie_def u8f_def Let_def)

lemma edgeDetect_at:
  "RGBAAt (edgeDetect i p) a b =
     (if visited i p a b
      then \<lparr>cR = 0,
            cG = f64_to_uint8 (bounds (Fin
                   (if a = 0 \<or> a \<ge> Dx (Bounds i) - 1 \<or> b = 0 \<or> b \<ge> Dy (Bounds i) - 1 then 0
                    else luma i a b * 4 - luma i a (b - 1) - luma i (a - 1) b
                         - luma i (a + 1) b - luma i a (b + 1)))),
            cB = 0, cA = 255\<rparr>
      else RGBAAt p a b)"
proof -
  let ?w = "Dx (Bounds i)" and ?h = "Dy (Bounds i)"
  let ?cies = "makeCies i"
  let ?f = "\<lambda>x y (c :: rgba).
     \<lparr>cR = 0,
      cG = f64_to_uint8 (bounds (Fin
             (if x = 0 \<or> x \<ge> ?w - 1 \<or> y = 0 \<or> y \<ge> ?h - 1 then 0
              else idx ?cies (y * ?w + x) * 4.0 - idx ?cies (x + (y - 1) * ?w)
                   - idx ?cies (x - 1 + y * ?w) - idx ?cies (x + 1 + y * ?w)
                   - idx ?cies (x + (y + 1) * ?w)))),
      cB = 0, cA = 255\<rparr>"
  have E: "edgeDetect i p = for_pixels ?w ?h (\<lambda>x y p. SetRGBA p x y (?f x y (RGBAAt p x y))) p"
    by (simp add: edgeDetect_def Let_def)
  have R: "RGBAAt (for_pixels ?w ?h (\<lambda>x y p. SetRGBA p x y (?f x y (RGBAAt p x y))) p) a b =
     (if 0 \<le> a \<and> a < ?w \<and> 0 \<le> b \<and> b < ?h \<and> PtIn a b (Bounds p)
      then ?f a b (RGBAAt p a b) else RGBAAt p a b)"
    by (rule RGBAAt_for_pixels)
  have I: "idx ?cies (y * ?w + x) = luma i x y"
    if "0 \<le> x" "x < ?w" "0 \<le> y" "y < ?h" for x y
    using makeCies_idx [OF that] by (simp add: luma_cie)
  show ?thesis
  proof (cases "visited i p a b")
    case False
    then have nv: "\<not> (0 \<le> a \<and> a < ?w \<and> 0 \<le> b \<and> b < ?h \<and> PtIn a b (Bounds p))"
      by (simp add: visited_def)
    show ?thesis
      unfolding E R by (simp only: nv False if_False)
  next
    case True
    then have v: "0 \<le> a \<and> a < ?w \<and> 0 \<le> b \<and> b < ?h \<and> PtIn a b (Bounds p)"
      by (simp add: visited_def)
    show ?thesis
    proof (cases "a = 0 \<or> a \<ge> ?w - 1 \<or> b = 0 \<or> b \<ge> ?h - 1")
      case True
      show ?thesis
        unfolding E R by (simp only: v \<open>visited i p a b\<close> True if_True; simp)
    next
      case False
      with True have r: "0 < a" "a < ?w - 1" "0 < b" "b < ?h - 1"
        by (auto simp: visited_def)
      have 1: "idx ?cies (b * ?w + a) = luma i a b" using r by (intro I) auto
      have 2: "idx ?cies (a + (b - 1) * ?w) = luma i a (b - 1)"
        using I [of a "b - 1"] r by (simp add: add.commute)
      have 3: "idx ?cies (a - 1 + b * ?w) = luma i (a - 1) b"
        using I [of "a - 1" b] r by (simp add: add.commute)
      have 4: "idx ?cies (a + 1 + b * ?w) = luma i (a + 1) b"
        using I [of "a + 1" b] r by (simp add: add.commute)
      have 5: "idx ?cies (a + (b + 1) * ?w) = luma i a (b + 1)"
        using I [of a "b + 1"] r by (simp add: add.commute)
      show ?thesis
        unfolding E R by (simp only: v True False if_True if_False 1 2 3 4 5; simp)
    qed
  qed
qed

lemma skinDetect_at:
  "RGBAAt (skinDetect cfg i p) a b =
     (if visited i p a b
      then \<lparr>cR = (if fgt (skinCol (RGBAAt i a b)) (Fin (SkinThreshold cfg))
                     \<and> cie (RGBAAt i a b) / 255 \<ge> SkinBrightnessMin cfg
                     \<and> cie (RGBAAt i a b) / 255 \<le> SkinBrightnessMax cfg
                  then f64_to_uint8 (bounds (fmul (fsub (skinCol (RGBAAt i a b)) (Fin (SkinThreshold cfg)))
                                   (fdiv (Fin 255) (Fin (1 - SkinThreshold cfg)))))
                  else 0),
            cG = cG (RGBAAt p a b), cB = cB (RGBAAt p a b), cA = 255\<rparr>
      else RGBAAt p a b)"
proof -
  let ?w = "Dx (Bounds i)" and ?h = "Dy (Bounds i)"
  let ?f = "\<lambda>x y (c :: rgba).
      \<lparr>cR = (if fgt (skinCol (RGBAAt i x y)) (Fin (SkinThreshold cfg))
                     \<and> cie (RGBAAt i x y) / 255 \<ge> SkinBrightnessMin cfg
                     \<and> cie (RGBAAt i x y) / 255 \<le> SkinBrightnessMax cfg
                  then f64_to_uint8 (bounds (fmul (fsub (skinCol (RGBAAt i x y)) (Fin (SkinThreshold cfg)))
                                   (fdiv (Fin 255) (Fin (1 - SkinThreshold cfg)))))
                  else 0),
            cG = cG c, cB = cB c, cA = 255\<rparr>"
  have E: "skinDetect cfg i p = for_pixels ?w ?h (\<lambda>x y p. SetRGBA p x y (?f x y (RGBAAt p x y))) p"
    unfolding skinDetect_def Let_def
    by (rule arg_cong [where f = "\<lambda>body. for_pixels ?w ?h body p"]) (auto simp: fun_eq_iff)
  have R: "RGBAAt (for_pixels ?w ?h (\<lambda>x y p. SetRGBA p x y (?f x y (RGBAAt p x y))) p) a b =
     (if 0 \<le> a \<and> a < ?w \<and> 0 \<le> b \<and> b < ?h \<and> PtIn a b (Bounds p)
      then ?f a b (RGBAAt p a b) else RGBAAt p a b)"
    by (rule RGBAAt_for_pixels)
  show ?thesis
    unfolding E R by (simp add: visited_def)
qed

lemma saturationDetect_at:
  "RGBAAt (saturationDetect cfg i p) a b =
     (if visited i p a b
      then \<lparr>cR = cR (RGBAAt p a b), cG = cG (RGBAAt p a b),
            cB = (if saturation (RGBAAt i a b) > SaturationThreshold cfg
                     \<and> cie (RGBAAt i a b) / 255 \<ge> SaturationBrightnessMin cfg
                     \<and> cie (RGBAAt i a b) / 255 \<le> SaturationBrightnessMax cfg
                  then f64_to_uint8 (bounds (fmul (Fin (saturation (RGBAAt i a b) - SaturationThreshold cfg))
                                   (fdiv (Fin 255) (Fin (1 - SaturationThreshold cfg)))))
                  else 0),
            cA = 255\<rparr>
      else RGBAAt p a b)"
proof -
  let ?w = "Dx (Bounds i)" and ?h = "Dy (Bounds i)"
  let ?f = "\<lambda>x y (c :: rgba).
      \<lparr>cR = cR c, cG = cG c,
            cB = (if saturation (RGBAAt i x y) > SaturationThreshold cfg
                     \<and> cie (RGBAAt i x y) / 255 \<ge> SaturationBrightnessMin cfg
                     \<and> cie (RGBAAt i x y) / 255 \<le> SaturationBrightnessMax cfg
                  then f64_to_uint8 (bounds (fmul (Fin (saturation (RGBAAt i x y) - SaturationThreshold cfg))
                                   (fdiv (Fin 255) (Fin (1 - SaturationThreshold cfg)))))
                  else 0),
            cA = 255\<rparr>"
  have E: "saturationDetect cfg i p = for_pixels ?w ?h (\<lambda>x y p. SetRGBA p x y (?f x y (RGBAAt p x y))) p"
    unfolding saturationDetect_def Let_def
    by (rule arg_cong [where f = "\<lambda>body. for_pixels ?w ?h body p"]) (auto simp: fun_eq_iff)
  have R: "RGBAAt (for_pixels ?w ?h (\<lambda>x y p. SetRGBA p x y (?f x y (RGBAAt p x y))) p) a b =
     (if 0 \<le> a \<and> a < ?w \<and> 0 \<le> b \<and> b < ?h \<and> PtIn a b (Bounds p)
      then ?f a b (RGBAAt p a b) else RGBAAt p a b)"
    by (rule RGBAAt_for_pixels)
  show ?thesis
    unfolding E R by (simp add: visited_def)
qed

section \<open>The 2 by 2 red image\<close>

text \<open>Its analysis under \<open>FaceDetectConfig\<close>, step by step.\<close>

lemma sqrt_255: "sqrt 65025 = (255 :: real)"
  using real_sqrt_abs2 [of "255 :: real"] by simp

lemma skinCol_red: "skinCol red = Fin (1 - sqrt (5669 / 10000))"
  by (simp add: skinCol_def red_def Let_def u8f_def fsub_def sqrt_255 power2_eq_square)

lemma skin_red_low: "\<not> fgt (skinCol red) (Fin (8 / 10))"
proof -
  have "(2 / 10 :: real) \<le> sqrt (5669 / 10000)"
    by (rule real_le_rsqrt) (simp add: power2_eq_square)
  then show ?thesis by (simp add: skinCol_red fgt_def)
qed

lemma saturation_red: "saturation red = 1"
  by (simp add: saturation_def red_def Let_def u8f_def)

lemma cie_red: "cie red = 0.0722 * 255"
  by (simp add: cie_def red_def u8f_def)

lemma pre_red:
  "preprocessForAnalysis FaceDetectConfig same_size (flat (Rect 0 0 2 2) red) 2 2
     = (flat (Rect 0 0 2 2) red, Fin 2, Fin 2, Fin 1, Fin 1)"
  by (simp add: preprocessForAnalysis_def FaceDetectConfig_def flat_def Rect_def Dx_def Dy_def
      of_int64_def fmin_def fmax_def trunc_def toRGBA_def Let_def)

lemma crops_red:
  "Bounds p = Rect 0 0 2 2 \<Longrightarrow> crops FaceDetectConfig p (Fin 2) (Fin 2) (Fin 1) = Some [red_crop]"
  by (simp add: crops_def FaceDetectConfig_def Rect_def Dx_def Dy_def Let_def for_loop.simps
      fne_def fge_def of_int64_def fmin_def trunc_def red_crop_def)

lemma thirds_1: "thirds 1 = 0"
  by (simp add: thirds_def Mod_def trunc_def Let_def)

lemma importance_red: "importance FaceDetectConfig red_crop 0 0 = 141 / 100 - sqrt 2 - 64 / 10"
  by (simp add: importance_def red_crop_def FaceDetectConfig_def Rect_def Dx_def Dy_def Let_def thirds_1)

lemma Bounds_red_features: "Bounds red_features = Rect 0 0 2 2"
  by (simp add: red_features_def Bounds_saturationDetect Bounds_skinDetect Bounds_edgeDetect NewRGBA_def)

lemma visited_red: "Bounds p = Rect 0 0 2 2 \<Longrightarrow> visited (flat (Rect 0 0 2 2) red) p 0 0"
  by (simp add: visited_def flat_def Rect_def Dx_def Dy_def PtIn_def)

lemma RGBAAt_flat_red: "RGBAAt (flat (Rect 0 0 2 2) red) 0 0 = red"
  by (simp add: RGBAAt_def flat_def Rect_def PtIn_def)

lemma red_features_00:
  "RGBAAt red_features 0 0 = \<lparr>cR = 0, cG = 0, cB = 255, cA = 255\<rparr>"
proof -
  let ?i = "flat (Rect 0 0 2 2) red"
  let ?e = "edgeDetect ?i (NewRGBA (Rect 0 0 2 2))"
  let ?s = "skinDetect FaceDetectConfig ?i ?e"
  have be: "Bounds ?e = Rect 0 0 2 2" by (simp add: Bounds_edgeDetect NewRGBA_def)
  have bs: "Bounds ?s = Rect 0 0 2 2" by (simp add: Bounds_skinDetect be)
  have e: "cG (RGBAAt ?e 0 0) = 0"
    using visited_red [of "NewRGBA (Rect 0 0 2 2)"]
    by (simp add: edgeDetect_at NewRGBA_def bounds_Fin f64_to_uint8_def trunc_def)
  have s: "cR (RGBAAt ?s 0 0) = 0 \<and> cG (RGBAAt ?s 0 0) = 0"
    using visited_red [OF be] skin_red_low e
    by (simp add: skinDetect_at RGBAAt_flat_red FaceDetectConfig_def)
  have b: "f64_to_uint8 (bounds (fmul (Fin (1 - 4 / 10)) (fdiv (Fin 255) (Fin (1 - 4 / 10))))) = 255"
    by (simp add: bounds_Fin f64_to_uint8_def trunc_def)
  show ?thesis
    unfolding red_features_def
    using visited_red [OF bs] s b
    by (simp add: saturationDetect_at RGBAAt_flat_red FaceDetectConfig_def saturation_red cie_red)
qed

lemma score_red: "score FaceDetectConfig red_features red_crop [] = Some red_score"
proof -
  have ds: "ScoreDownSample FaceDetectConfig = 2" "FaceDetectEnabled FaceDetectConfig"
    "DetailWeight FaceDetectConfig = 52 / 10" "SkinWeight FaceDetectConfig = 58 / 10"
    "SaturationWeight FaceDetectConfig = 55 / 10" "SkinBias FaceDetectConfig = 1 / 100"
    "SaturationBias FaceDetectConfig = 2 / 10"
    by (simp_all add: FaceDetectConfig_def)
  have smp: "score_sample FaceDetectConfig red_features red_crop 0 0 Score0
      = Score0\<lparr>Saturation := Fin (2 / 10 * (141 / 100 - sqrt 2 - 64 / 10))\<rparr>"
    by (simp add: score_sample_def red_features_00 importance_red Let_def Score0_def u8f_def ds)
  have r: "Rectangle red_crop = Rect 0 0 2 2" by (simp add: red_crop_def)
  have "score FaceDetectConfig red_features red_crop [] =
      Some (score_total FaceDetectConfig red_crop
              (Score0\<lparr>Saturation := Fin (2 / 10 * (141 / 100 - sqrt 2 - 64 / 10))\<rparr>))"
    by (simp add: score_def Bounds_red_features Let_def ds for_loop.simps smp
        Rect_def Dx_def Dy_def)
  also have "score_total FaceDetectConfig red_crop
              (Score0\<lparr>Saturation := Fin (2 / 10 * (141 / 100 - sqrt 2 - 64 / 10))\<rparr>) = red_score"
    by (simp add: score_total_def ds r Rect_def Dx_def Dy_def of_int64_def Score0_def red_score_def)
  finally show ?thesis .
qed

lemma analyse_red:
  "analyse FaceDetectConfig no_faces (flat (Rect 0 0 2 2) red) (Fin 2) (Fin 2) (Fin 1)
     = Some (Inr ([red_crop\<lparr>Score := red_score\<rparr>], red_features))"
proof -
  have b: "Bounds (flat (Rect 0 0 2 2) red) = Rect 0 0 2 2" by (simp add: flat_def)
  have fd: "FaceDetectEnabled FaceDetectConfig" by (simp add: FaceDetectConfig_def)
  have f: "faceDetect no_faces (flat (Rect 0 0 2 2) red) = Inr []"
    by (simp add: faceDetect_def no_faces_def)
  show ?thesis
    unfolding analyse_def Let_def b red_features_def [symmetric]
    by (simp add: fd f crops_red [OF Bounds_red_features] score_red)
qed

lemma red_total_low: "fle (Total red_score) (Fin (- 1))"
proof -
  have "0 \<le> x \<Longrightarrow> 2 / 10 * (141 / 100 - x - 64 / 10) * (55 / 10) / 4 \<le> (- 1 :: real)" for x
    by simp
  from this [of "sqrt 2"] show ?thesis by (simp add: red_score_def)
qed

section \<open>Claims about the extractors\<close>



text \<open>
  Claim C9, as stated, fails for the edge extractor: it stores a whole pixel
  \<open>(0, edge, 0, 255)\<close>. On the fresh buffer that the analysis hands to it, it changes the
  alpha channel from \<open>0\<close> to \<open>255\<close>; on a buffer that holds a skin value \<open>7\<close> it resets
  that value to \<open>0\<close>.
\<close>

theorem edgeDetect_overwrites_counterexample:
  "cA (RGBAAt (edgeDetect (flat (Rect 0 0 1 1) red) (NewRGBA (Rect 0 0 1 1))) 0 0)
     \<noteq> cA (RGBAAt (NewRGBA (Rect 0 0 1 1)) 0 0)
   \<and> cR (RGBAAt (edgeDetect (flat (Rect 0 0 1 1) red)
                   (flat (Rect 0 0 1 1) \<lparr>cR = 7, cG = 0, cB = 0, cA = 0\<rparr>)) 0 0)
     \<noteq> cR (RGBAAt (flat (Rect 0 0 1 1) \<lparr>cR = 7, cG = 0, cB = 0, cA = 0\<rparr>) 0 0)"
proof -
  have v: "visited (flat (Rect 0 0 1 1) red) (NewRGBA (Rect 0 0 1 1)) 0 0"
    "visited (flat (Rect 0 0 1 1) red) (flat (Rect 0 0 1 1) \<lparr>cR = 7, cG = 0, cB = 0, cA = 0\<rparr>) 0 0"
    by (simp_all add: visited_def flat_def NewRGBA_def Rect_def Dx_def Dy_def PtIn_def)
  show ?thesis
    unfolding edgeDetect_at
    by (simp add: v) (simp add: RGBAAt_def flat_def NewRGBA_def Rect_def PtIn_def RGBA0_def)
qed

text \<open>
  Claim C9, amended. At every pixel the skin extractor leaves the edge and saturation
  channels as they are, and the saturation extractor leaves the skin and edge channels
  as they are. The edge extractor sets the skin and saturation channels of the pixels it
  writes to \<open>0\<close> and leaves all other pixels alone; on the fresh buffer of the analysis
  these channels are \<open>0\<close> before and after. All three set alpha to \<open>255\<close> where they write.
  The value an extractor puts in its own channel, at a pixel it writes, does not depend on
  the output buffer: for two buffers \<open>p\<close> and \<open>q\<close> it is the same.
\<close>

theorem extractors_frame:
  "(cG (RGBAAt (skinDetect cfg i p) x y) = cG (RGBAAt p x y)
      \<and> cB (RGBAAt (skinDetect cfg i p) x y) = cB (RGBAAt p x y))
   \<and> (cR (RGBAAt (saturationDetect cfg i p) x y) = cR (RGBAAt p x y)
      \<and> cG (RGBAAt (saturationDetect cfg i p) x y) = cG (RGBAAt p x y))
   \<and> (visited i p x y \<longrightarrow>
        cR (RGBAAt (edgeDetect i p) x y) = 0 \<and> cB (RGBAAt (edgeDetect i p) x y) = 0
        \<and> cA (RGBAAt (edgeDetect i p) x y) = 255
        \<and> cA (RGBAAt (skinDetect cfg i p) x y) = 255
        \<and> cA (RGBAAt (saturationDetect cfg i p) x y) = 255)
   \<and> (\<not> visited i p x y \<longrightarrow> RGBAAt (edgeDetect i p) x y = RGBAAt p x y)
   \<and> (cR (RGBAAt (edgeDetect i (NewRGBA r)) x y) = cR (RGBAAt (NewRGBA r) x y)
      \<and> cB (RGBAAt (edgeDetect i (NewRGBA r)) x y) = cB (RGBAAt (NewRGBA r) x y))
   \<and> (visited i p x y \<and> visited i q x y \<longrightarrow>
        cG (RGBAAt (edgeDetect i p) x y) = cG (RGBAAt (edgeDetect i q) x y)
        \<and> cR (RGBAAt (skinDetect cfg i p) x y) = cR (RGBAAt (skinDetect cfg i q) x y)
        \<and> cB (RGBAAt (saturationDetect cfg i p) x y)
            = cB (RGBAAt (saturationDetect cfg i q) x y))"
proof -
  have n: "RGBAAt (NewRGBA r) x y = RGBA0"
    by (simp add: RGBAAt_def NewRGBA_def)
  show ?thesis
    by (simp add: edgeDetect_at skinDetect_at saturationDetect_at n RGBA0_def)
qed

text \<open>
  On the 2 by 2 red image, with a buffer \<open>p\<close> holding \<open>(7, 8, 9, 0)\<close> everywhere and the
  fresh buffer \<open>q\<close>, at the pixel \<open>(0, 0)\<close>, which both runs write.
\<close>

theorem extractors_frame_witness:
  "visited (flat (Rect 0 0 2 2) red) (flat (Rect 0 0 2 2) \<lparr>cR = 7, cG = 8, cB = 9, cA = 0\<rparr>) 0 0
   \<and> visited (flat (Rect 0 0 2 2) red) (NewRGBA (Rect 0 0 2 2)) 0 0
   \<and> cG (RGBAAt (skinDetect FaceDetectConfig (flat (Rect 0 0 2 2) red)
                   (flat (Rect 0 0 2 2) \<lparr>cR = 7, cG = 8, cB = 9, cA = 0\<rparr>)) 0 0) = 8
   \<and> cR (RGBAAt (edgeDetect (flat (Rect 0 0 2 2) red)
                   (flat (Rect 0 0 2 2) \<lparr>cR = 7, cG = 8, cB = 9, cA = 0\<rparr>)) 0 0) = 0
   \<and> cB (RGBAAt (saturationDetect FaceDetectConfig (flat (Rect 0 0 2 2) red)
                   (flat (Rect 0 0 2 2) \<lparr>cR = 7, cG = 8, cB = 9, cA = 0\<rparr>)) 0 0)
     = cB (RGBAAt (saturationDetect FaceDetectConfig (flat (Rect 0 0 2 2) red)
                     (NewRGBA (Rect 0 0 2 2))) 0 0)"
proof -
  let ?i = "flat (Rect 0 0 2 2) red"
  let ?p = "flat (Rect 0 0 2 2) \<lparr>cR = 7, cG = 8, cB = 9, cA = 0\<rparr>"
  let ?q = "NewRGBA (Rect 0 0 2 2)"
  have v: "visited ?i ?p 0 0" "visited ?i ?q 0 0"
    by (rule visited_red, simp add: flat_def)+ (rule visited_red, simp add: NewRGBA_def)
  have o: "cG (RGBAAt ?p 0 0) = 8"
    by (simp add: RGBAAt_def flat_def PtIn_def Rect_def)
  from extractors_frame [of FaceDetectConfig ?i ?p 0 0 "Rect 0 0 2 2" ?q] v o
  show ?thesis by simp
qed

section \<open>Properties of the scorer\<close>


lemma score_faces_fields:
  "Detail (score_faces crop rs sc) = Detail sc \<and> Skin (score_faces crop rs sc) = Skin sc
   \<and> Saturation (score_faces crop rs sc) = Saturation sc"
  by (induction rs arbitrary: sc) (auto simp: Let_def)





lemma score_all_rects:
  "score_all cfg p fr cs = Some cs' \<Longrightarrow> map Rectangle cs' = map Rectangle cs"
  by (induction cs arbitrary: cs') (auto simp: bind_eq_Some_conv)





section \<open>Properties of the generator\<close>









lemma crops_canonical:
  assumes "crops cfg i cw ch rms = Some cs"
  shows "\<forall>c \<in> set cs. canonical (Rectangle c)"
proof -
  let ?P = "\<lambda>res :: Crop list. \<forall>c \<in> set res. canonical (Rectangle c)"
  show ?thesis
  proof (rule for_loop_invariant [OF assms [unfolded crops_def Let_def], where P = ?P])
    show "?P []" by simp
  next
    fix s :: real and t t' :: "Crop list"
    assume t: "?P t"
    assume "for_loop (\<lambda>y. fle (fadd (of_int64 y)
                 (fmul (if fne ch (Fin 0.0) then ch
                        else fmin (of_int64 (Dx (Bounds i))) (of_int64 (Dy (Bounds i)))) (Fin s)))
               (of_int64 (Dy (Bounds i))))
             (\<lambda>y. y + Step cfg)
             (\<lambda>y. for_loop
                     (\<lambda>x. fle (fadd (of_int64 x)
                          (fmul (if fne cw (Fin 0.0) then cw
                                 else fmin (of_int64 (Dx (Bounds i))) (of_int64 (Dy (Bounds i)))) (Fin s)))
                        (of_int64 (Dx (Bounds i))))
                     (\<lambda>x. x + Step cfg)
                     (\<lambda>x res.
                        Some (res @
                          [\<lparr>Rectangle =
                              Rect x y
                               (x + f64_to_int (fmul (if fne cw (Fin 0.0) then cw
                                 else fmin (of_int64 (Dx (Bounds i))) (of_int64 (Dy (Bounds i)))) (Fin s)))
                               (y + f64_to_int (fmul (if fne ch (Fin 0.0) then ch
                                 else fmin (of_int64 (Dx (Bounds i))) (of_int64 (Dy (Bounds i)))) (Fin s))),
                            Score = Score0\<rparr>]))
                     0)
             0 t = Some t'"
    then show "?P t'"
    proof (rule for_loop_invariant [where P = ?P])
      show "?P t" by (rule t)
    next
      fix y :: int and u u' :: "Crop list"
      assume u: "?P u"
      assume "for_loop
                     (\<lambda>x. fle (fadd (of_int64 x)
                          (fmul (if fne cw (Fin 0.0) then cw
                                 else fmin (of_int64 (Dx (Bounds i))) (of_int64 (Dy (Bounds i)))) (Fin s)))
                        (of_int64 (Dx (Bounds i))))
                     (\<lambda>x. x + Step cfg)
                     (\<lambda>x res.
                        Some (res @
                          [\<lparr>Rectangle =
                              Rect x y
                               (x + f64_to_int (fmul (if fne cw (Fin 0.0) then cw
                                 else fmin (of_int64 (Dx (Bounds i))) (of_int64 (Dy (Bounds i)))) (Fin s)))
                               (y + f64_to_int (fmul (if fne ch (Fin 0.0) then ch
                                 else fmin (of_int64 (Dx (Bounds i))) (of_int64 (Dy (Bounds i)))) (Fin s))),
                            Score = Score0\<rparr>]))
                     0 u = Some u'"
      then show "?P u'"
        by (rule for_loop_invariant [where P = ?P]) (use u in \<open>auto simp: canonical_Rect\<close>)
    qed
  qed
qed



section \<open>Properties of the entry points\<close>

text \<open>
  Claim C2. With both target dimensions zero, \<open>FindBestCrop\<close> returns the empty rectangle
  and \<open>FindAllCrops\<close> the empty list, each with \<open>ErrInvalidDimensions\<close>. This holds for
  every configuration, resizer, detector and image, also for those on which the analysis
  would panic or not end: nothing of it is run.
\<close>

theorem invalid_dimensions:
  "FindBestCrop cfg Resize detect img 0 0 = Some (Inr (ZR, Some ErrInvalidDimensions))
   \<and> FindAllCrops cfg Resize detect img 0 0 = Some (Inr ([], Some ErrInvalidDimensions))"
  by (simp add: FindBestCrop_def FindAllCrops_def)

text \<open>
  Claim C1 fails on the code. Under the preset \<open>FaceDetectConfig\<close>, with a detector that
  finds no face, the 2 by 2 red image and the target 2 by 2 give one candidate,
  \<open>(0,0)-(2,2)\<close>, whose total is about \<open>-1.76\<close>. \<open>FindAllCrops\<close> returns it; \<open>FindBestCrop\<close>
  returns the zero rectangle \<open>(0,0)-(0,0)\<close>, which is not among the candidates: no total
  exceeds the initial best of \<open>-1\<close>.
\<close>

theorem best_crop_not_among_all:
  "FindBestCrop FaceDetectConfig same_size no_faces (flat (Rect 0 0 2 2) red) 2 2
     = Some (Inr (ZR, None))
   \<and> FindAllCrops FaceDetectConfig same_size no_faces (flat (Rect 0 0 2 2) red) 2 2
     = Some (Inr ([red_crop\<lparr>Score := red_score\<rparr>], None))
   \<and> Rectangle (red_crop\<lparr>Score := red_score\<rparr>) = Rect 0 0 2 2 \<and> Rect 0 0 2 2 \<noteq> ZR"
proof -
  have p: "\<not> Prescale FaceDetectConfig" by (simp add: FaceDetectConfig_def)
  have t: "findTopCrop [red_crop\<lparr>Score := red_score\<rparr>] = Crop0"
    by (rule findTopCrop_all_low) (simp add: red_total_low)
  show ?thesis
    by (simp add: FindBestCrop_def FindAllCrops_def pre_red analyse_red t p Crop0_def Canon_ZR)
      (simp add: Rect_def ZR_def red_crop_def)
qed






lemma pf_cases:
  assumes "Prescale cfg \<longrightarrow> 0 < PrescaleMin cfg" "0 \<le> W" "0 \<le> H"
  shows "\<exists>p. (if Prescale cfg \<and> flt (fdiv (Fin (PrescaleMin cfg)) (fmin (of_int64 W) (of_int64 H))) (Fin 1.0)
             then fdiv (Fin (PrescaleMin cfg)) (fmin (of_int64 W) (of_int64 H)) else Fin 1.0) = Fin p
            \<and> 0 < p"
proof (cases "Prescale cfg")
  case False
  then show ?thesis by simp
next
  case True
  with assms have pm: "0 < PrescaleMin cfg" by simp
  have m: "fmin (of_int64 W) (of_int64 H) = Fin (real_of_int (min W H))"
    by (simp add: of_int64_def fmin_def min_def)
  show ?thesis
  proof (cases "min W H = 0")
    case True
    then show ?thesis using pm by (simp add: m)
  next
    case False
    with assms(2,3) have "0 < min W H" by linarith
    then have "0 < real_of_int (min W H)" by (simp only: of_int_0_less_iff)
    with pm have "0 < PrescaleMin cfg / real_of_int (min W H)" by simp
    with False show ?thesis by (simp add: m)
  qed
qed





lemma analyse_crops:
  assumes "analyse cfg detect img cw ch rms = Some (Inr (cs, o'))"
  shows "\<exists>cs0. crops cfg o' cw ch rms = Some cs0 \<and> map Rectangle cs = map Rectangle cs0
               \<and> Bounds o' = Bounds img"
proof -
  let ?o = "saturationDetect cfg img (skinDetect cfg img (edgeDetect img (NewRGBA (Bounds img))))"
  have b: "Bounds ?o = Bounds img"
    by (simp add: Bounds_saturationDetect Bounds_skinDetect Bounds_edgeDetect NewRGBA_def)
  from assms obtain fr cs0 where
    c: "crops cfg ?o cw ch rms = Some cs0" and s: "score_all cfg ?o fr cs0 = Some cs" and o: "o' = ?o"
    by (auto simp: analyse_def Let_def bind_eq_Some_conv split: sum.splits)
  from score_all_rects [OF s] c o b show ?thesis by auto
qed



text \<open>
  When some candidate that \<^verbatim>\<open>FindAllCrops\<close> returns has a total above \<open>-1\<close>, the
  rectangle of \<^verbatim>\<open>FindBestCrop\<close> is the rectangle of one of them, and none has a greater
  total.
\<close>

lemma unscale_le: "0 < p \<Longrightarrow> u \<le> v \<Longrightarrow> unscale (Fin p) u \<le> unscale (Fin p) v"
  by (simp add: unscale_def of_int64_def trunc_mono divide_right_mono)

lemma canonical_unscaleRect: "0 < p \<Longrightarrow> canonical r \<Longrightarrow> canonical (unscaleRect (Fin p) r)"
  by (simp add: canonical_def unscaleRect_def unscale_le)

lemma best_crop_among_all:
  assumes nz: "\<not> (width = 0 \<and> height = 0)"
    and P: "Prescale cfg \<longrightarrow> 0 < PrescaleMin cfg"
    and B: "0 \<le> Dx (Bounds img)" "0 \<le> Dy (Bounds img)"
    and A: "FindAllCrops cfg Resize detect img width height = Some (Inr (as, e))"
    and H: "\<exists>d \<in> set as. fgt (Total (Score d)) (Fin (- 1.0))"
  shows "\<exists>r c. FindBestCrop cfg Resize detect img width height = Some (Inr (r, None))
           \<and> c \<in> set as \<and> Rectangle c = r
           \<and> (\<forall>d \<in> set as. \<not> fgt (Total (Score d)) (Total (Score c)))"
proof -
  obtain rgbaImg cw ch rms pf where
    pre: "preprocessForAnalysis cfg Resize img width height = (rgbaImg, cw, ch, rms, pf)"
    by (metis prod_cases5)
  define f where
    "f = (\<lambda>crop :: Crop. if Prescale cfg then crop\<lparr>Rectangle := unscaleRect pf (Rectangle crop)\<rparr>
                  else crop)"
  from A nz obtain cs o' where
    an: "analyse cfg detect rgbaImg cw ch rms = Some (Inr (cs, o'))" and as: "as = map f cs"
    by (auto simp: FindAllCrops_def pre f_def split: option.splits sum.splits)
  have sf: "Score (f c) = Score c" for c by (simp add: f_def)
  from pre have "pf = (if Prescale cfg \<and> flt (fdiv (Fin (PrescaleMin cfg))
                          (fmin (of_int64 (Dx (Bounds img))) (of_int64 (Dy (Bounds img))))) (Fin 1.0)
                       then fdiv (Fin (PrescaleMin cfg))
                          (fmin (of_int64 (Dx (Bounds img))) (of_int64 (Dy (Bounds img))))
                       else Fin 1.0)"
    by (auto simp: preprocessForAnalysis_def Let_def split: if_splits)
  with pf_cases [OF P B] obtain p where p: "pf = Fin p" "0 < p" by auto
  from H have "\<exists>d \<in> set cs. fgt (Total (Score d)) (Fin (- 1.0))"
    by (auto simp: as sf)
  from findTopCrop_first_max [OF this] obtain pre' c post where
    s: "cs = pre' @ c # post" and t: "findTopCrop cs = c"
    and lo: "\<forall>d \<in> set pre'. \<not> fge (Total (Score d)) (Total (Score c))"
    and hi: "\<forall>d \<in> set post. \<not> fgt (Total (Score d)) (Total (Score c))"
    by blast
  have mx: "\<not> fgt (Total (Score d)) (Total (Score c))" if "d \<in> set cs" for d
  proof -
    from that s have "d \<in> set pre' \<or> d = c \<or> d \<in> set post" by auto
    then show ?thesis
    proof (elim disjE)
      assume "d \<in> set pre'"
      with lo have "\<not> fge (Total (Score d)) (Total (Score c))" by simp
      then show ?thesis using flt_fle [of "Total (Score c)" "Total (Score d)"]
        by (auto simp: fgt_def fge_def)
    next
      assume "d = c"
      then show ?thesis by (cases "Total (Score c)") (auto simp: fgt_def)
    next
      assume "d \<in> set post"
      with hi show ?thesis by simp
    qed
  qed
  from analyse_crops [OF an] obtain cs0 where
    c0: "crops cfg o' cw ch rms = Some cs0" and rs: "map Rectangle cs = map Rectangle cs0"
    by blast
  have "Rectangle ` set cs = Rectangle ` set cs0" using rs by (metis set_map)
  moreover have "c \<in> set cs" using s by simp
  ultimately have "Rectangle c \<in> Rectangle ` set cs0" by blast
  with crops_canonical [OF c0] have cc: "canonical (Rectangle c)" by auto
  have "canonical (Rectangle (f c))"
    using cc canonical_unscaleRect [OF p(2) cc] by (simp add: f_def p(1))
  then have cn: "Canon (Rectangle (f c)) = Rectangle (f c)" by (rule canonical_Canon)
  have "FindBestCrop cfg Resize detect img width height = Some (Inr (Rectangle (f c), None))"
    using nz cn by (cases "Prescale cfg") (simp_all add: FindBestCrop_def pre an t f_def Let_def)
  moreover have "f c \<in> set as" using \<open>c \<in> set cs\<close> by (simp add: as)
  moreover have "\<forall>d \<in> set as. \<not> fgt (Total (Score d)) (Total (Score (f c)))"
    using mx by (auto simp: as sf)
  ultimately show ?thesis by blast
qed





end
